theory Spec2Isabelle
  imports Complex_Main "HOL-Library.Word"
begin

section \<open>Go values used by the download package\<close>

subsection \<open>Errors\<close>

text \<open>
  A Go \<open>error\<close> is an interface value; \<open>nil\<close> is \<open>None\<close> of \<open>go_error option\<close>.
  Three dynamic types occur in the code: \<open>*DownloadError\<close> (with its \<open>Type\<close> field
  and the text its \<open>Error()\<close> method returns), the value built by
  \<open>fmt.Errorf("prefix: %w", err)\<close> (a wrapper whose text is the prefix followed by the
  text of the wrapped error), and every other error, known by its text only.
\<close>

datatype go_error =
    DownloadError string string
  | WrapError string go_error
  | PlainError string

fun Error :: "go_error \<Rightarrow> string" where
  "Error (DownloadError ty txt) = txt"
| "Error (WrapError pre e) = pre @ Error e"
| "Error (PlainError txt) = txt"

text \<open>
  The test \<open>downloadErr, ok := err.(*DownloadError); ok && downloadErr.Type == "DownloadCancelled"\<close>:
  a type assertion on the dynamic type, so a wrapped \<open>DownloadError\<close> does not pass it.
\<close>

fun isCancelled :: "go_error \<Rightarrow> bool" where
  "isCancelled (DownloadError ty txt) = (ty = ''DownloadCancelled'')"
| "isCancelled (WrapError pre e) = False"
| "isCancelled (PlainError txt) = False"

text \<open>
  Modelled from the spec: \<open>NewDownloadCancelledError\<close> is not among the sources; the code
  here observes only that its result is a \<open>*DownloadError\<close> of type
  \<open>"DownloadCancelled"\<close>. The text given to it is kept as the error text.
\<close>

definition NewDownloadCancelledError :: "string \<Rightarrow> string \<Rightarrow> go_error" where
  "NewDownloadCancelledError name msg = DownloadError ''DownloadCancelled'' (msg @ '': '' @ name)"

subsection \<open>Strings and number formatting\<close>

text \<open>\<open>strings.HasPrefix\<close> and \<open>strings.Contains\<close>.\<close>

fun HasPrefix :: "string \<Rightarrow> string \<Rightarrow> bool" where
  "HasPrefix s [] = True"
| "HasPrefix [] (c # cs) = False"
| "HasPrefix (x # xs) (c # cs) = (x = c \<and> HasPrefix xs cs)"

fun Contains :: "string \<Rightarrow> string \<Rightarrow> bool" where
  "Contains [] sub = (sub = [])"
| "Contains (x # xs) sub = (HasPrefix (x # xs) sub \<or> Contains xs sub)"

text \<open>The verb \<open>%d\<close> of \<open>fmt\<close>: decimal digits, with a minus sign for a negative value.\<close>

definition digit_char :: "nat \<Rightarrow> char" where
  "digit_char d =
     (if d = 0 then CHR ''0'' else if d = 1 then CHR ''1'' else if d = 2 then CHR ''2''
      else if d = 3 then CHR ''3'' else if d = 4 then CHR ''4'' else if d = 5 then CHR ''5''
      else if d = 6 then CHR ''6'' else if d = 7 then CHR ''7'' else if d = 8 then CHR ''8''
      else CHR ''9'')"

function string_of_nat :: "nat \<Rightarrow> string" where
  "string_of_nat n =
     (if n < 10 then [digit_char n] else string_of_nat (n div 10) @ [digit_char (n mod 10)])"
  by pat_completeness auto
termination
  by (relation "measure (\<lambda>n. n)") auto

declare string_of_nat.simps [simp del]

definition fmt_d :: "int \<Rightarrow> string" where
  "fmt_d i = (if i < 0 then CHR ''-'' # string_of_nat (nat (- i)) else string_of_nat (nat i))"

text \<open>Go's integer division and remainder truncate towards zero.\<close>

definition go_div :: "int \<Rightarrow> int \<Rightarrow> int" where
  "go_div a b = sgn a * sgn b * (\<bar>a\<bar> div \<bar>b\<bar>)"

definition go_mod :: "int \<Rightarrow> int \<Rightarrow> int" where
  "go_mod a b = a - b * go_div a b"

section \<open>Transient error classifier\<close>

text \<open>\<open>isTransientError\<close>, in the order of its tests.\<close>

definition isTransientError :: "go_error option \<Rightarrow> bool" where
  "isTransientError err =
     (case err of
        None \<Rightarrow> False
      | Some e \<Rightarrow>
          if isCancelled e then False
          else if Error e = ''connection reset'' \<or> Error e = ''connection refused''
                  \<or> Error e = ''i/o timeout'' then True
          else if Contains (Error e) ''429'' \<or> Contains (Error e) ''503''
                  \<or> Contains (Error e) ''504'' \<or> Contains (Error e) ''502'' then True
          else False)"

section \<open>Retry loop\<close>

text \<open>
  \<open>downloadWithRetry\<close> calls \<open>m.downloadFile(state)\<close>, whose result depends on the
  network, the file system and the subprocess. The call is a parameter
  \<open>df :: 'w \<Rightarrow> go_error option \<times> 'w\<close> on a world \<open>'w\<close> that it may change. What the
  loop does besides is recorded in a trace: each call of \<open>downloadFile\<close> with its attempt
  number, each warning logged before a retry, and each \<open>time.Sleep\<close> with its seconds.
\<close>

datatype retry_event =
    CallDownloadFile nat
  | WarnRetry nat go_error
  | Sleep nat

definition maxRetries :: nat where
  "maxRetries = 3"

text \<open>The error returned after the loop; \<open>lastErr\<close> is \<open>nil\<close> only if the loop never ran.\<close>

definition exhausted_error :: "go_error option \<Rightarrow> go_error" where
  "exhausted_error lastErr =
     (case lastErr of
        Some e \<Rightarrow> WrapError (''failed after '' @ fmt_d (int maxRetries) @ '' attempts, last error: '') e
      | None \<Rightarrow> PlainError (''failed after '' @ fmt_d (int maxRetries) @ '' attempts, last error: %!w(<nil>)''))"

definition permanent_error :: "nat \<Rightarrow> go_error \<Rightarrow> go_error" where
  "permanent_error attempt err =
     WrapError (''permanent error on attempt '' @ fmt_d (int attempt) @ '': '') err"

function retry_loop ::
  "('w \<Rightarrow> go_error option \<times> 'w) \<Rightarrow> nat \<Rightarrow> go_error option \<Rightarrow> 'w \<Rightarrow> retry_event list
     \<Rightarrow> go_error option \<times> 'w \<times> retry_event list" where
  "retry_loop df attempt lastErr w tr =
     (if attempt \<le> maxRetries then
        (case fst (df w) of
           Some err \<Rightarrow>
             if isCancelled err then (Some err, snd (df w), tr @ [CallDownloadFile attempt])
             else if \<not> isTransientError (Some err) then
               (Some (permanent_error attempt err), snd (df w), tr @ [CallDownloadFile attempt])
             else retry_loop df (attempt + 1) (Some err) (snd (df w))
                    (tr @ [CallDownloadFile attempt, WarnRetry attempt err, Sleep attempt])
         | None \<Rightarrow> (None, snd (df w), tr @ [CallDownloadFile attempt]))
      else (Some (exhausted_error lastErr), w, tr))"
  by pat_completeness auto
termination
  by (relation "measure (\<lambda>(df, attempt, lastErr, w, tr). Suc maxRetries - attempt)") auto

declare retry_loop.simps [simp del]

definition downloadWithRetry ::
  "('w \<Rightarrow> go_error option \<times> 'w) \<Rightarrow> 'w \<Rightarrow> go_error option \<times> 'w \<times> retry_event list" where
  "downloadWithRetry df w = retry_loop df 1 None w []"

subsection \<open>What the loop sees of successive calls\<close>

text \<open>
  The results of the first \<open>n\<close> calls of \<open>downloadFile\<close> from the world \<open>w\<close>, and the
  world after them.
\<close>

fun outcomes :: "('w \<Rightarrow> go_error option \<times> 'w) \<Rightarrow> 'w \<Rightarrow> nat \<Rightarrow> go_error option list" where
  "outcomes df w 0 = []"
| "outcomes df w (Suc n) = fst (df w) # outcomes df (snd (df w)) n"

fun world_after :: "('w \<Rightarrow> go_error option \<times> 'w) \<Rightarrow> 'w \<Rightarrow> nat \<Rightarrow> 'w" where
  "world_after df w 0 = w"
| "world_after df w (Suc n) = world_after df (snd (df w)) n"

text \<open>
  The trace of a run of failed attempts that were each retried, the first of them being
  attempt number \<open>attempt\<close>: call, warning, sleep of \<open>attempt\<close> seconds.
\<close>

fun retried_trace :: "nat \<Rightarrow> go_error option list \<Rightarrow> retry_event list" where
  "retried_trace attempt [] = []"
| "retried_trace attempt (None # es) = retried_trace (Suc attempt) es"
| "retried_trace attempt (Some e # es) =
     [CallDownloadFile attempt, WarnRetry attempt e, Sleep attempt] @ retried_trace (Suc attempt) es"

fun sleeps_of :: "retry_event list \<Rightarrow> nat list" where
  "sleeps_of [] = []"
| "sleeps_of (Sleep n # tr) = n # sleeps_of tr"
| "sleeps_of (CallDownloadFile n # tr) = sleeps_of tr"
| "sleeps_of (WarnRetry n e # tr) = sleeps_of tr"

fun calls_of :: "retry_event list \<Rightarrow> nat list" where
  "calls_of [] = []"
| "calls_of (CallDownloadFile n # tr) = n # calls_of tr"
| "calls_of (Sleep n # tr) = calls_of tr"
| "calls_of (WarnRetry n e # tr) = calls_of tr"

section \<open>One download: \<open>downloadFile\<close>\<close>

type_synonym int64 = "64 word"

text \<open>
  Modelled from the spec: the declaration of \<open>TransferContext\<close> and of its lifecycle
  enumeration is not among the sources. The fields are the ones the code reads and writes
  (\<open>Name\<close>, \<open>State\<close>, \<open>TotalSize\<close>, \<open>DownloadedSize\<close>, \<open>StartTime\<close>); the states are
  the five of the specification. A \<open>time.Time\<close> is its number of nanoseconds after the
  zero time, so that \<open>IsZero\<close> is equality with 0.
\<close>

datatype TransferLifecycle =
    TransferLifecyclePending
  | TransferLifecycleDownloading
  | TransferLifecycleCompleted
  | TransferLifecycleFailed
  | TransferLifecycleCancelled

record TransferContext =
  Name :: string
  State :: TransferLifecycle
  TotalSize :: int64
  DownloadedSize :: int64
  StartTime :: int

text \<open>
  The coordinator's registry: \<open>GetTransferContext(id)\<close> is the lookup, \<open>exists\<close> being
  \<open>Some\<close>. The contexts are shared by pointer, so a write to a field is an update of the
  registry at that id.
\<close>

type_synonym coordinator = "int64 \<rightharpoonup> TransferContext"

record DownloadState =
  stFileID :: int64
  stName :: string
  stTransferID :: int64

text \<open>
  What the outside world answers during one call of \<open>downloadFile\<close>: the error of
  \<open>GetDownloadURL\<close>, of \<open>os.MkdirAll\<close>, of the two pipes and of \<open>cmd.Start\<close>, whether
  the context is cancelled when \<open>cmd.Wait\<close> returns, the error of \<open>cmd.Wait\<close>, and the
  result of the final \<open>os.Stat\<close> (an error, or the size of the file).
\<close>

record attempt_env =
  url_err :: "go_error option"
  mkdir_err :: "go_error option"
  stdout_pipe_err :: "go_error option"
  stderr_pipe_err :: "go_error option"
  start_err :: "go_error option"
  ctx_cancelled :: bool
  cmd_err :: "go_error option"
  stat_result :: "go_error + int64"

text \<open>The log lines of \<open>downloadFile\<close> that the properties speak about.\<close>

datatype log_entry =
    LogStarting string
  | LogUpdatedTransfer string int64 int64 int64 int64
  | LogCompleted string int64

text \<open>
  \<open>downloadFile\<close>, step by step in the order of the source. The removal of a stale
  partial file before the subprocess starts changes neither the result nor the
  coordinator and is left to the file system.
\<close>

definition downloadFile ::
  "DownloadState \<Rightarrow> attempt_env \<Rightarrow> coordinator \<Rightarrow> go_error option \<times> coordinator \<times> log_entry list" where
  "downloadFile st env coord =
     (case url_err env of
        Some e \<Rightarrow> (Some (WrapError ''failed to get download URL: '' e), coord, [])
      | None \<Rightarrow>
     (case mkdir_err env of
        Some e \<Rightarrow> (Some (WrapError ''failed to create directory: '' e), coord, [])
      | None \<Rightarrow>
     (case stdout_pipe_err env of
        Some e \<Rightarrow> (Some (WrapError ''failed to create stdout pipe: '' e), coord, [LogStarting (stName st)])
      | None \<Rightarrow>
     (case stderr_pipe_err env of
        Some e \<Rightarrow> (Some (WrapError ''failed to create stderr pipe: '' e), coord, [LogStarting (stName st)])
      | None \<Rightarrow>
     (case start_err env of
        Some e \<Rightarrow> (Some (WrapError ''failed to start aria2c: '' e), coord, [LogStarting (stName st)])
      | None \<Rightarrow>
     if ctx_cancelled env then
       (Some (NewDownloadCancelledError (stName st) ''download stopped''), coord, [LogStarting (stName st)])
     else
     (case cmd_err env of
        Some e \<Rightarrow> (Some (WrapError ''aria2c failed: '' e), coord, [LogStarting (stName st)])
      | None \<Rightarrow>
     (case stat_result env of
        Inl e \<Rightarrow> (Some (WrapError ''failed to verify downloaded file: '' e), coord, [LogStarting (stName st)])
      | Inr totalSize \<Rightarrow>
     (case coord (stTransferID st) of
        Some transferCtx \<Rightarrow>
          (None,
           coord(stTransferID st \<mapsto> transferCtx\<lparr>DownloadedSize := DownloadedSize transferCtx + totalSize\<rparr>),
           [LogStarting (stName st),
            LogUpdatedTransfer (stName st) (stTransferID st) totalSize
              (DownloadedSize transferCtx + totalSize) (TotalSize transferCtx),
            LogCompleted (stName st) totalSize])
      | None \<Rightarrow>
          (None, coord, [LogStarting (stName st), LogCompleted (stName st) totalSize])))))))))"

text \<open>
  The world of the retry loop for this \<open>downloadFile\<close>: the number of calls made so far,
  the coordinator and the log. The environment of the \<open>k\<close>-th call is \<open>envs k\<close>.
\<close>

record world =
  calls :: nat
  coord :: coordinator
  logged :: "log_entry list"

definition downloadFile_call ::
  "(nat \<Rightarrow> attempt_env) \<Rightarrow> DownloadState \<Rightarrow> world \<Rightarrow> go_error option \<times> world" where
  "downloadFile_call envs st w =
     (case downloadFile st (envs (calls w)) (coord w) of
        (r, c, l) \<Rightarrow> (r, \<lparr>calls = Suc (calls w), coord = c, logged = logged w @ l\<rparr>))"

section \<open>Worker\<close>

text \<open>
  The manager state a worker touches: the set of active file ids (\<open>m.activeFiles\<close>) and,
  since \<open>handleFileFailure\<close> and \<open>handleFileCompletion\<close> are not among the sources, the
  list of the calls made to them.
\<close>

datatype coordinator_call =
    HandleFileFailure int64
  | HandleFileCompletion int64 int64

record Job =
  FileID :: int64
  JobName :: string
  TransferID :: int64

record manager =
  activeFiles :: "int64 set"
  reported :: "coordinator_call list"

text \<open>
  The body of the worker's loop for one received job: the \<open>DownloadState\<close> is built
  from the job, \<open>downloadWithRetry\<close> runs on it, and the result decides what is reported.
\<close>

definition state_of_job :: "Job \<Rightarrow> DownloadState" where
  "state_of_job job = \<lparr>stFileID = FileID job, stName = JobName job, stTransferID = TransferID job\<rparr>"

definition handleJob ::
  "(DownloadState \<Rightarrow> 'w \<Rightarrow> go_error option \<times> 'w) \<Rightarrow> Job \<Rightarrow> manager \<times> 'w \<Rightarrow> manager \<times> 'w" where
  "handleJob dfs job mw =
     (case downloadWithRetry (dfs (state_of_job job)) (snd mw) of
        (Some err, w', tr) \<Rightarrow>
          if isCancelled err then
            ((fst mw)\<lparr>activeFiles := activeFiles (fst mw) - {FileID job}\<rparr>, w')
          else
            ((fst mw)\<lparr>activeFiles := activeFiles (fst mw) - {FileID job},
                      reported := reported (fst mw) @ [HandleFileFailure (TransferID job)]\<rparr>, w')
      | (None, w', tr) \<Rightarrow>
          ((fst mw)\<lparr>reported := reported (fst mw) @ [HandleFileCompletion (TransferID job) (FileID job)]\<rparr>, w'))"

section \<open>Concrete runs\<close>

text \<open>
  Environments used to run the model: one in which every step of \<open>downloadFile\<close>
  succeeds and the file has the given size, one in which \<open>GetDownloadURL\<close> fails with
  the given error, one in which the context is cancelled while the subprocess runs, and
  the sequence whose first \<open>n\<close> calls meet a failing \<open>GetDownloadURL\<close>.
\<close>

definition env_ok :: "int64 \<Rightarrow> attempt_env" where
  "env_ok sz = \<lparr>url_err = None, mkdir_err = None, stdout_pipe_err = None, stderr_pipe_err = None,
     start_err = None, ctx_cancelled = False, cmd_err = None, stat_result = Inr sz\<rparr>"

definition env_url_fails :: "go_error \<Rightarrow> attempt_env" where
  "env_url_fails e = (env_ok 0)\<lparr>url_err := Some e\<rparr>"

definition env_cancelled :: attempt_env where
  "env_cancelled = (env_ok 0)\<lparr>ctx_cancelled := True, cmd_err := Some (PlainError ''signal: killed'')\<rparr>"

definition failing_then :: "nat \<Rightarrow> go_error \<Rightarrow> attempt_env \<Rightarrow> nat \<Rightarrow> attempt_env" where
  "failing_then n e env k = (if k < n then env_url_fails e else env)"

definition attempt_succeeds :: "attempt_env \<Rightarrow> int64 \<Rightarrow> bool" where
  "attempt_succeeds env sz \<longleftrightarrow>
     url_err env = None \<and> mkdir_err env = None \<and> stdout_pipe_err env = None
     \<and> stderr_pipe_err env = None \<and> start_err env = None \<and> \<not> ctx_cancelled env
     \<and> cmd_err env = None \<and> stat_result env = Inr sz"

definition state0 :: DownloadState where
  "state0 = \<lparr>stFileID = 11, stName = ''a.bin'', stTransferID = 7\<rparr>"

definition job0 :: Job where
  "job0 = \<lparr>FileID = 11, JobName = ''a.bin'', TransferID = 7\<rparr>"

definition ctx0 :: TransferContext where
  "ctx0 = \<lparr>Name = ''t'', State = TransferLifecycleDownloading, TotalSize = 4000,
            DownloadedSize = 0, StartTime = 1\<rparr>"

definition world0 :: world where
  "world0 = \<lparr>calls = 0, coord = [7 \<mapsto> ctx0], logged = []\<rparr>"

definition manager0 :: manager where
  "manager0 = \<lparr>activeFiles = {11, 12}, reported = []\<rparr>"

definition unavailable :: go_error where
  "unavailable = PlainError ''unexpected status 503''"

definition not_found :: go_error where
  "not_found = PlainError ''unexpected status 404''"

section \<open>Concurrent completion reports\<close>

text \<open>
  Several workers run \<open>downloadFile\<close> at once, and files of one transfer share one
  \<open>TransferContext\<close>. The statement \<open>transferCtx.DownloadedSize += totalSize\<close> is
  executed with no lock held (the dashboard's reader takes \<open>ctx.Mu.RLock()\<close>, the
  writer takes nothing): it is a load of the field followed by a store of the sum, and
  the steps of different workers may interleave. A reporter is a worker at that
  statement, with the size of its file; a schedule names the worker that takes each next
  step.
\<close>

datatype report_pc = BeforeLoad | Loaded int64 | Stored

record reporter =
  pc :: report_pc
  fileSize :: int64

fun reporter_step :: "int64 \<Rightarrow> reporter \<Rightarrow> int64 \<times> reporter" where
  "reporter_step d r =
     (case pc r of
        BeforeLoad \<Rightarrow> (d, r\<lparr>pc := Loaded d\<rparr>)
      | Loaded v \<Rightarrow> (v + fileSize r, r\<lparr>pc := Stored\<rparr>)
      | Stored \<Rightarrow> (d, r))"

fun run_schedule :: "nat list \<Rightarrow> int64 \<times> reporter list \<Rightarrow> int64 \<times> reporter list" where
  "run_schedule [] s = s"
| "run_schedule (i # sched) (d, rs) =
     (if i < length rs then
        run_schedule sched (fst (reporter_step d (rs ! i)), rs[i := snd (reporter_step d (rs ! i))])
      else run_schedule sched (d, rs))"

definition new_reporter :: "int64 \<Rightarrow> reporter" where
  "new_reporter sz = \<lparr>pc = BeforeLoad, fileSize = sz\<rparr>"

text \<open>Successive successful downloads of one worker, one file size after the other.\<close>

fun download_all :: "DownloadState \<Rightarrow> int64 list \<Rightarrow> coordinator \<Rightarrow> coordinator" where
  "download_all st [] reg = reg"
| "download_all st (sz # szs) reg = download_all st szs (fst (snd (downloadFile st (env_ok sz) reg)))"

section \<open>Progress monitor\<close>

subsection \<open>The progress pattern\<close>

text \<open>
  The pattern of \<open>monitorAria2cProgress\<close> is
  \<^verbatim>\<open>\[#\d+.*?(\d+)%.*?DL:([\d.]+)(KiB|MiB|GiB).*?ETA:([^\]]+)\]\<close>.
  Its constructs are literals, character classes under a greedy \<open>+\<close> or a lazy
  \<open>*?\<close>, an alternation and capture groups. Go's \<open>regexp\<close> returns the leftmost
  match and, among the matches starting there, the one a backtracking search finds first;
  the matcher below is that search, with the rest of the pattern as a continuation.
  Strings are byte strings; every byte the pattern names is ASCII.
\<close>

datatype cclass = Digit | DigitOrDot | NotRBracket | AnyChar

definition is_digit :: "char \<Rightarrow> bool" where
  "is_digit c \<longleftrightarrow> c \<in> set ''0123456789''"

fun in_class :: "cclass \<Rightarrow> char \<Rightarrow> bool" where
  "in_class Digit c = is_digit c"
| "in_class DigitOrDot c = (is_digit c \<or> c = CHR ''.'')"
| "in_class NotRBracket c = (c \<noteq> CHR '']'')"
| "in_class AnyChar c = (c \<noteq> CHR 0x0A)"

datatype regex =
    Lit string
  | Plus cclass
  | LazyStar cclass
  | Alt regex regex
  | Seq regex regex
  | Cap nat regex

text \<open>\<open>c+\<close>: one character of the class, then more of them first, then the rest.\<close>

fun plus_greedy :: "cclass \<Rightarrow> string \<Rightarrow> (string \<Rightarrow> 'r option) \<Rightarrow> 'r option" where
  "plus_greedy c [] k = None"
| "plus_greedy c (x # xs) k =
     (if in_class c x then
        (case plus_greedy c xs k of Some r \<Rightarrow> Some r | None \<Rightarrow> k xs)
      else None)"

text \<open>\<open>c*?\<close>: the rest first, then one more character of the class.\<close>

fun star_lazy :: "cclass \<Rightarrow> string \<Rightarrow> (string \<Rightarrow> 'r option) \<Rightarrow> 'r option" where
  "star_lazy c [] k = k []"
| "star_lazy c (x # xs) k =
     (case k (x # xs) of
        Some r \<Rightarrow> Some r
      | None \<Rightarrow> if in_class c x then star_lazy c xs k else None)"

type_synonym captures = "nat \<Rightarrow> string option"

fun rmatch ::
  "regex \<Rightarrow> string \<Rightarrow> captures \<Rightarrow> (string \<Rightarrow> captures \<Rightarrow> 'r option) \<Rightarrow> 'r option" where
  "rmatch (Lit l) s caps k = (if HasPrefix s l then k (drop (length l) s) caps else None)"
| "rmatch (Plus c) s caps k = plus_greedy c s (\<lambda>s'. k s' caps)"
| "rmatch (LazyStar c) s caps k = star_lazy c s (\<lambda>s'. k s' caps)"
| "rmatch (Alt a b) s caps k =
     (case rmatch a s caps k of Some r \<Rightarrow> Some r | None \<Rightarrow> rmatch b s caps k)"
| "rmatch (Seq a b) s caps k = rmatch a s caps (\<lambda>s' caps'. rmatch b s' caps' k)"
| "rmatch (Cap n r) s caps k =
     rmatch r s caps (\<lambda>s' caps'. k s' (caps'(n \<mapsto> take (length s - length s') s)))"

fun seqs :: "regex list \<Rightarrow> regex" where
  "seqs [] = Lit []"
| "seqs [r] = r"
| "seqs (r # rs) = Seq r (seqs rs)"

definition progressRegex :: regex where
  "progressRegex = seqs
     [Lit ''[#'', Plus Digit, LazyStar AnyChar, Cap 1 (Plus Digit), Lit ''%'',
      LazyStar AnyChar, Lit ''DL:'', Cap 2 (Plus DigitOrDot),
      Cap 3 (Alt (Lit ''KiB'') (Alt (Lit ''MiB'') (Lit ''GiB''))),
      LazyStar AnyChar, Lit ''ETA:'', Cap 4 (Plus NotRBracket), Lit '']'']"

text \<open>
  \<open>FindStringSubmatch\<close>: the match at the leftmost position that has one, as the list of
  the whole match and the groups (a group that took no part is the empty string);
  \<open>None\<close> is the \<open>nil\<close> slice of no match.
\<close>

definition match_here :: "regex \<Rightarrow> nat \<Rightarrow> string \<Rightarrow> string list option" where
  "match_here re ngroups s =
     rmatch re s (\<lambda>n. None)
       (\<lambda>s' caps. Some (take (length s - length s') s
                        # map (\<lambda>n. case caps n of None \<Rightarrow> [] | Some g \<Rightarrow> g) [1..<Suc ngroups]))"

fun FindStringSubmatch :: "regex \<Rightarrow> nat \<Rightarrow> string \<Rightarrow> string list option" where
  "FindStringSubmatch re ngroups [] = match_here re ngroups []"
| "FindStringSubmatch re ngroups (x # xs) =
     (case match_here re ngroups (x # xs) of
        Some ms \<Rightarrow> Some ms
      | None \<Rightarrow> FindStringSubmatch re ngroups xs)"

subsection \<open>Numbers\<close>

text \<open>
  A \<open>float64\<close> is taken as the rational it stands for: rounding to 53 bits and the
  infinities are left out. \<open>strconv.ParseFloat\<close> is modelled on the strings the groups
  \<open>(\d+)\<close> and \<open>([\d.]+)\<close> can capture, digits with at most one dot; on any other
  string of digits and dots it reports a syntax error and returns 0. The code drops the
  error and keeps the value.
\<close>

definition digit_value :: "char \<Rightarrow> nat" where
  "digit_value c =
     (if c = CHR ''1'' then 1 else if c = CHR ''2'' then 2 else if c = CHR ''3'' then 3
      else if c = CHR ''4'' then 4 else if c = CHR ''5'' then 5 else if c = CHR ''6'' then 6
      else if c = CHR ''7'' then 7 else if c = CHR ''8'' then 8 else if c = CHR ''9'' then 9
      else 0)"

fun digits_value :: "nat \<Rightarrow> string \<Rightarrow> nat" where
  "digits_value acc [] = acc"
| "digits_value acc (c # cs) = digits_value (10 * acc + digit_value c) cs"

definition ParseFloat :: "string \<Rightarrow> rat \<times> bool" where
  "ParseFloat s =
     (let ip = takeWhile is_digit s; rest = dropWhile is_digit s in
      if rest = [] then
        (if ip = [] then (0, False) else (of_nat (digits_value 0 ip), True))
      else if hd rest = CHR ''.'' \<and> list_all is_digit (tl rest) \<and> (ip \<noteq> [] \<or> tl rest \<noteq> []) then
        (of_nat (digits_value 0 ip) + of_nat (digits_value 0 (tl rest)) / 10 ^ length (tl rest), True)
      else (0, False))"

subsection \<open>One line of output\<close>

text \<open>
  What the loop body computes from a line that matches: the local variables
  \<open>progress\<close>, \<open>speed\<close>, \<open>speedUnit\<close>, \<open>eta\<close> and \<open>speedMBps\<close>.
\<close>

record progress_line =
  progress :: rat
  speed :: rat
  speedUnit :: string
  eta :: string
  speedMBps :: rat

definition parseProgressLine :: "string \<Rightarrow> progress_line option" where
  "parseProgressLine line =
     (case FindStringSubmatch progressRegex 4 line of
        None \<Rightarrow> None
      | Some matches \<Rightarrow>
          if length matches \<ge> 5 then
            Some \<lparr>progress = fst (ParseFloat (matches ! 1)),
                  speed = fst (ParseFloat (matches ! 2)),
                  speedUnit = matches ! 3,
                  eta = matches ! 4,
                  speedMBps =
                    (if matches ! 3 = ''KiB'' then fst (ParseFloat (matches ! 2)) / 1024
                     else if matches ! 3 = ''GiB'' then fst (ParseFloat (matches ! 2)) * 1024
                     else fst (ParseFloat (matches ! 2)))\<rparr>
          else None)"

subsection \<open>The monitor loop\<close>

text \<open>
  Each round of the loop that scans a line reads the clock up to three times: for
  \<open>state.LastProgress\<close>, in \<open>time.Since(lastLogTime)\<close>, and for the new
  \<open>lastLogTime\<close>. A scanned line comes with these readings, in nanoseconds. The state is
  the two local variables of the loop and the fields of \<open>DownloadState\<close> it writes;
  \<open>state.downloaded = int64(progress)\<close> truncates.
\<close>

record scanned =
  line :: string
  t_update :: int
  t_since :: int
  t_log :: int

record monitor_state =
  lastProgress :: rat
  lastLogTime :: int
  stProgress :: rat
  stDownloaded :: int
  stLastProgress :: int

datatype monitor_log =
    LogProgress string rat rat string
  | LogAria2cError string string

definition trunc_int :: "rat \<Rightarrow> int" where
  "trunc_int q = (if q < 0 then - \<lfloor>- q\<rfloor> else \<lfloor>q\<rfloor>)"

definition monitor_step ::
  "int \<Rightarrow> string \<Rightarrow> monitor_state \<Rightarrow> scanned \<Rightarrow> monitor_state \<times> monitor_log option" where
  "monitor_step interval name ms sc =
     (case parseProgressLine (line sc) of
        Some p \<Rightarrow>
          (let ms1 = ms\<lparr>stProgress := progress p, stDownloaded := trunc_int (progress p),
                        stLastProgress := t_update sc\<rparr>
           in if t_since sc - lastLogTime ms \<ge> interval \<and> progress p \<noteq> lastProgress ms then
                (ms1\<lparr>lastProgress := progress p, lastLogTime := t_log sc\<rparr>,
                 Some (LogProgress name (progress p) (speedMBps p) (eta p)))
              else (ms1, None))
      | None \<Rightarrow>
          if Contains (line sc) ''Exception'' \<or> Contains (line sc) ''error''
             \<or> Contains (line sc) ''ERROR'' \<or> Contains (line sc) ''failed'' then
            (ms, Some (LogAria2cError name (line sc)))
          else (ms, None))"

text \<open>The loop over the lines scanned until \<open>done\<close>, with the log of each round.\<close>

fun monitor_loop ::
  "int \<Rightarrow> string \<Rightarrow> monitor_state \<Rightarrow> scanned list \<Rightarrow> monitor_state \<times> monitor_log option list" where
  "monitor_loop interval name ms [] = (ms, [])"
| "monitor_loop interval name ms (sc # scs) =
     (let r = monitor_step interval name ms sc;
          rest = monitor_loop interval name (fst r) scs
      in (fst rest, snd r # snd rest))"

text \<open>The state on entry: \<open>lastProgress := 0\<close>, \<open>lastLogTime := time.Now()\<close>.\<close>

definition monitor_init :: "int \<Rightarrow> monitor_state" where
  "monitor_init start = \<lparr>lastProgress = 0, lastLogTime = start, stProgress = 0,
     stDownloaded = 0, stLastProgress = 0\<rparr>"

definition monitorAria2cProgress ::
  "int \<Rightarrow> string \<Rightarrow> int \<Rightarrow> scanned list \<Rightarrow> monitor_state \<times> monitor_log option list" where
  "monitorAria2cProgress interval name start scs = monitor_loop interval name (monitor_init start) scs"

fun is_progress_log :: "monitor_log option \<Rightarrow> bool" where
  "is_progress_log (Some (LogProgress n p v e)) = True"
| "is_progress_log (Some (LogAria2cError n l)) = False"
| "is_progress_log None = False"

text \<open>
  The reference of the rate limit, read off the history: the percentage and the clock
  reading of the last round that logged progress, or the initial pair if none did.
\<close>

fun last_logged :: "rat \<times> int \<Rightarrow> (scanned \<times> monitor_log option) list \<Rightarrow> rat \<times> int" where
  "last_logged ref [] = ref"
| "last_logged ref ((sc, Some (LogProgress n p v e)) # h) = last_logged (p, t_log sc) h"
| "last_logged ref ((sc, Some (LogAria2cError n l)) # h) = last_logged ref h"
| "last_logged ref ((sc, None) # h) = last_logged ref h"

section \<open>Dashboard helpers\<close>

text \<open>\<open>formatDuration\<close> of dashboard.go, on Go's \<open>int\<close>.\<close>

definition formatDuration :: "int \<Rightarrow> string" where
  "formatDuration seconds =
     (if seconds < 0 then ''unknown''
      else
        let h = go_div seconds 3600;
            m = go_div (go_mod seconds 3600) 60;
            s = go_mod seconds 60
        in if h > 0 then fmt_d h @ ''h'' @ fmt_d m @ ''m''
           else if m > 0 then fmt_d m @ ''m'' @ fmt_d s @ ''s''
           else fmt_d s @ ''s'')"

text \<open>
  \<open>DownloadInfo\<close> and the visitor that \<open>handleDashboardAPI\<close> passes to
  \<open>GetAllTransfers\<close>. The visitor gets the context by pointer, so the model returns the
  context it leaves behind together with the extended list. \<open>now\<close> is the clock reading
  of \<open>time.Since\<close>; \<open>Seconds()\<close> of a duration is its nanoseconds divided by \<open>10^9\<close>.
\<close>

record DownloadInfo =
  diName :: string
  ProgressPercent :: rat
  DownloadedMB :: rat
  TotalMB :: rat
  SpeedMBps :: rat
  ETA :: string

definition visitTransfer ::
  "int \<Rightarrow> TransferContext \<Rightarrow> DownloadInfo list \<Rightarrow> TransferContext \<times> DownloadInfo list" where
  "visitTransfer now ctx downloads =
     (if State ctx = TransferLifecycleDownloading \<and> sint (TotalSize ctx) > 0 then
        let downloadedMB = of_int (sint (DownloadedSize ctx)) / 1024 / 1024;
            totalMB = of_int (sint (TotalSize ctx)) / 1024 / 1024;
            progressPercent = (of_int (sint (DownloadedSize ctx)) / of_int (sint (TotalSize ctx))) * 100;
            speed_eta =
              (if StartTime ctx \<noteq> 0 \<and> sint (DownloadedSize ctx) > 0 then
                 let elapsed = of_int (now - StartTime ctx) / 1000000000 in
                 if elapsed > 0 then
                   let speedMBps = downloadedMB / elapsed;
                       remainingMB = totalMB - downloadedMB
                   in if speedMBps > 0 then
                        (speedMBps, formatDuration (trunc_int (remainingMB / speedMBps)))
                      else (speedMBps, ''calculating...'')
                 else (0, ''calculating...'')
               else (0, ''calculating...''))
        in (ctx, downloads @ [\<lparr>diName = Name ctx, ProgressPercent = progressPercent,
                                DownloadedMB = downloadedMB, TotalMB = totalMB,
                                SpeedMBps = fst speed_eta, ETA = snd speed_eta\<rparr>])
      else (ctx, downloads))"

text \<open>
  Modelled from the spec: \<open>GetAllTransfers\<close> is not among the sources. It calls the
  visitor once for every context of the registry, here the list of them in the order of
  the iteration, and whatever the visitor does to a context stays in the registry.
\<close>

fun GetAllTransfers ::
  "TransferContext list \<Rightarrow> (TransferContext \<Rightarrow> 'a \<Rightarrow> TransferContext \<times> 'a) \<Rightarrow> 'a
     \<Rightarrow> TransferContext list \<times> 'a" where
  "GetAllTransfers [] visit acc = ([], acc)"
| "GetAllTransfers (ctx # ctxs) visit acc =
     (let r = visit ctx acc; rest = GetAllTransfers ctxs visit (snd r)
      in (fst r # fst rest, snd rest))"

definition handleDashboardAPI ::
  "int \<Rightarrow> TransferContext list \<Rightarrow> TransferContext list \<times> DownloadInfo list" where
  "handleDashboardAPI now ctxs = GetAllTransfers ctxs (visitTransfer now) []"

text \<open>
  The view of one transfer as the specification describes it: percent complete,
  downloaded and total megabytes, throughput (downloaded over elapsed) and ETA (remaining
  over throughput), computed from the name, the two sizes, the start time and the clock.
\<close>

definition snapshot_view :: "int \<Rightarrow> string \<Rightarrow> int64 \<Rightarrow> int64 \<Rightarrow> int \<Rightarrow> DownloadInfo" where
  "snapshot_view now name downloadedSize totalSize startTime =
     (let downloadedMB = of_int (sint downloadedSize) / (1024 * 1024);
          totalMB = of_int (sint totalSize) / (1024 * 1024);
          elapsed = of_int (now - startTime) / 1000000000;
          measured = (startTime \<noteq> 0 \<and> sint downloadedSize > 0 \<and> elapsed > 0);
          throughput = (if measured then downloadedMB / elapsed else 0)
      in \<lparr>diName = name,
          ProgressPercent = of_int (sint downloadedSize) / of_int (sint totalSize) * 100,
          DownloadedMB = downloadedMB,
          TotalMB = totalMB,
          SpeedMBps = throughput,
          ETA = (if measured \<and> throughput > 0
                 then formatDuration (trunc_int ((totalMB - downloadedMB) / throughput))
                 else ''calculating...'')\<rparr>)"

text \<open>Sample output lines, rounds of the monitor and a transfer, for concrete runs.\<close>

definition sample_line :: "string \<Rightarrow> string \<Rightarrow> string" where
  "sample_line pct dl = ''[#1 SIZE:1.2GiB/10.5GiB('' @ pct @ ''%) CN:16 DL:'' @ dl @ '' ETA:3m12s]''"

definition scanned_at :: "string \<Rightarrow> int \<Rightarrow> scanned" where
  "scanned_at l seconds = \<lparr>line = l, t_update = seconds * 1000000000,
     t_since = seconds * 1000000000, t_log = seconds * 1000000000\<rparr>"

definition ctx_a :: TransferContext where
  "ctx_a = \<lparr>Name = ''a'', State = TransferLifecycleDownloading, TotalSize = 4194304,
            DownloadedSize = 1048576, StartTime = 1000000000\<rparr>"

section \<open>Properties\<close>

lemma string_of_nat_digit: "n < 10 \<Longrightarrow> string_of_nat n = [digit_char n]"
  by (subst string_of_nat.simps) simp

text \<open>
  C9. \<open>formatDuration\<close> maps 0 seconds to "0s", 125 seconds to "2m5s", 3700 seconds to
  "1h1m", and every negative number of seconds to "unknown".
\<close>

theorem formatDuration_vectors:
  "formatDuration 0 = ''0s'' \<and> formatDuration 125 = ''2m5s'' \<and> formatDuration 3700 = ''1h1m''
   \<and> (\<forall>n. n < 0 \<longrightarrow> formatDuration n = ''unknown'')"
  by (simp add: formatDuration_def go_div_def go_mod_def fmt_d_def string_of_nat_digit
      digit_char_def Let_def)

theorem formatDuration_vectors_witness:
  "(-5::int) < 0 \<and> formatDuration (-5) = ''unknown''"
  using formatDuration_vectors by simp


subsection \<open>Classifier and retry loop\<close>

lemma HasPrefix_iff: "HasPrefix s sub \<longleftrightarrow> (\<exists>ss. s = sub @ ss)"
  by (induction s sub rule: HasPrefix.induct) auto

lemma Contains_iff: "Contains s sub \<longleftrightarrow> (\<exists>ps ss. s = ps @ sub @ ss)"
proof (induction s)
  case Nil
  then show ?case by auto
next
  case (Cons x xs)
  show ?case
  proof
    assume "Contains (x # xs) sub"
    then consider "HasPrefix (x # xs) sub" | "Contains xs sub" by auto
    then show "\<exists>ps ss. x # xs = ps @ sub @ ss"
    proof cases
      case 1
      then obtain ss where "x # xs = sub @ ss" using HasPrefix_iff by blast
      then have "x # xs = [] @ sub @ ss" by simp
      then show ?thesis by blast
    next
      case 2
      then obtain ps ss where "xs = ps @ sub @ ss" using Cons.IH by blast
      then have "x # xs = (x # ps) @ sub @ ss" by simp
      then show ?thesis by blast
    qed
  next
    assume "\<exists>ps ss. x # xs = ps @ sub @ ss"
    then obtain ps ss where eq: "x # xs = ps @ sub @ ss" by blast
    show "Contains (x # xs) sub"
    proof (cases ps)
      case Nil
      with eq have "HasPrefix (x # xs) sub" using HasPrefix_iff by auto
      then show ?thesis by simp
    next
      case (Cons p ps')
      with eq have "xs = ps' @ sub @ ss" by simp
      then have "Contains xs sub" using Cons.IH by blast
      then show ?thesis by simp
    qed
  qed
qed


lemma retry_loop_retried:
  "\<forall>e \<in> set (outcomes df w n). isTransientError e \<Longrightarrow> attempt + n \<le> Suc maxRetries \<Longrightarrow>
   retry_loop df attempt lastErr w tr =
     retry_loop df (attempt + n) (if n = 0 then lastErr else last (outcomes df w n))
       (world_after df w n) (tr @ retried_trace attempt (outcomes df w n))"
proof (induction n arbitrary: attempt lastErr w tr)
  case 0
  then show ?case by simp
next
  case (Suc n)
  from Suc.prems(1) have tr1: "isTransientError (fst (df w))" by simp
  then obtain err where err: "fst (df w) = Some err" "\<not> isCancelled err"
    by (auto simp: isTransientError_def split: option.splits if_splits)
  from Suc.prems(2) have le: "attempt \<le> maxRetries" by simp
  have step: "retry_loop df attempt lastErr w tr =
      retry_loop df (attempt + 1) (Some err) (snd (df w))
        (tr @ [CallDownloadFile attempt, WarnRetry attempt err, Sleep attempt])"
    using le err tr1 by (subst retry_loop.simps) simp
  have rest: "\<forall>e \<in> set (outcomes df (snd (df w)) n). isTransientError e"
    using Suc.prems(1) by simp
  have "retry_loop df (attempt + 1) (Some err) (snd (df w))
        (tr @ [CallDownloadFile attempt, WarnRetry attempt err, Sleep attempt]) =
      retry_loop df (attempt + 1 + n)
        (if n = 0 then Some err else last (outcomes df (snd (df w)) n))
        (world_after df (snd (df w)) n)
        ((tr @ [CallDownloadFile attempt, WarnRetry attempt err, Sleep attempt])
           @ retried_trace (attempt + 1) (outcomes df (snd (df w)) n))"
    using Suc.IH [OF rest, of "attempt + 1"] Suc.prems(2) by simp
  with step show ?case using err by (cases n) auto
qed


lemma outcomes_length: "length (outcomes df w n) = n"
  by (induction n arbitrary: w) auto

lemma calls_of_retried:
  "\<forall>e \<in> set es. e \<noteq> None \<Longrightarrow> calls_of (retried_trace a es) = [a..<a + length es]"
proof (induction es arbitrary: a)
  case Nil
  then show ?case by simp
next
  case (Cons e es)
  then obtain x where x: "e = Some x" by auto
  have "calls_of (retried_trace a (e # es)) = a # calls_of (retried_trace (Suc a) es)"
    using x by simp
  also have "\<dots> = a # [Suc a..<Suc a + length es]"
    using Cons.IH [of "Suc a"] Cons.prems by simp
  also have "\<dots> = [a..<a + length (e # es)]"
    using upt_conv_Cons [of a "a + length (e # es)"] by simp
  finally show ?case .
qed

lemma sleeps_of_retried:
  "\<forall>e \<in> set es. e \<noteq> None \<Longrightarrow> sleeps_of (retried_trace a es) = [a..<a + length es]"
proof (induction es arbitrary: a)
  case Nil
  then show ?case by simp
next
  case (Cons e es)
  then obtain x where x: "e = Some x" by auto
  have "sleeps_of (retried_trace a (e # es)) = a # sleeps_of (retried_trace (Suc a) es)"
    using x by simp
  also have "\<dots> = a # [Suc a..<Suc a + length es]"
    using Cons.IH [of "Suc a"] Cons.prems by simp
  also have "\<dots> = [a..<a + length (e # es)]"
    using upt_conv_Cons [of a "a + length (e # es)"] by simp
  finally show ?case .
qed

lemma calls_of_append: "calls_of (xs @ ys) = calls_of xs @ calls_of ys"
  by (induction xs rule: calls_of.induct) auto

lemma sleeps_of_append: "sleeps_of (xs @ ys) = sleeps_of xs @ sleeps_of ys"
  by (induction xs rule: sleeps_of.induct) auto

lemma transient_not_None: "isTransientError e \<Longrightarrow> e \<noteq> None"
  by (cases e) (auto simp: isTransientError_def)

lemma downloadWithRetry_after_retries:
  assumes "\<forall>e \<in> set (outcomes df w n). isTransientError e" and "n \<le> maxRetries"
  shows "downloadWithRetry df w =
     retry_loop df (Suc n) (if n = 0 then None else last (outcomes df w n))
       (world_after df w n) (retried_trace 1 (outcomes df w n))"
  using retry_loop_retried [OF assms(1), of 1 None "[]"] assms(2)
  by (simp add: downloadWithRetry_def)

text \<open>
  C1, as the code has it. The loop makes at most three attempts. If the first \<open>n\<close>
  calls of \<open>downloadFile\<close> return transient errors, then: for \<open>n \<le> 2\<close>, a success of
  the next call makes \<open>downloadWithRetry\<close> return \<open>nil\<close> after \<open>n + 1\<close> calls; for
  \<open>n = 3\<close> it returns the error "failed after 3 attempts, last error: ..." wrapping the
  third error, after exactly three calls.
\<close>

theorem downloadWithRetry_retry_exhaustion:
  assumes "\<forall>e \<in> set (outcomes df w n). isTransientError e"
  shows "(n \<le> 2 \<and> fst (df (world_after df w n)) = None \<longrightarrow>
            fst (downloadWithRetry df w) = None
            \<and> calls_of (snd (snd (downloadWithRetry df w))) = [1..<n + 2])
       \<and> (n = 3 \<longrightarrow>
            (\<exists>e. last (outcomes df w n) = Some e
               \<and> fst (downloadWithRetry df w) =
                   Some (WrapError ''failed after 3 attempts, last error: '' e))
            \<and> calls_of (snd (snd (downloadWithRetry df w))) = [1, 2, 3])"
proof (intro conjI impI)
  assume h: "n \<le> 2 \<and> fst (df (world_after df w n)) = None"
  then have le: "n \<le> maxRetries" by (simp add: maxRetries_def)
  have nn: "\<forall>e \<in> set (outcomes df w n). e \<noteq> None"
    using assms transient_not_None by blast
  have r: "downloadWithRetry df w =
      (None, snd (df (world_after df w n)),
       retried_trace 1 (outcomes df w n) @ [CallDownloadFile (Suc n)])"
    using h by (subst downloadWithRetry_after_retries [OF assms le], subst retry_loop.simps)
      (simp add: maxRetries_def)
  show "fst (downloadWithRetry df w) = None" by (simp add: r)
  show "calls_of (snd (snd (downloadWithRetry df w))) = [1..<n + 2]"
    by (simp add: r calls_of_append calls_of_retried [OF nn] outcomes_length)
next
  assume n3: "n = 3"
  then have le: "n \<le> maxRetries" by (simp add: maxRetries_def)
  have nn: "\<forall>e \<in> set (outcomes df w n). e \<noteq> None"
    using assms transient_not_None by blast
  have "outcomes df w n \<noteq> []" using n3 outcomes_length [of df w n] by auto
  then have "last (outcomes df w n) \<in> set (outcomes df w n)" by simp
  then obtain e where e: "last (outcomes df w n) = Some e" using nn by auto
  have r: "downloadWithRetry df w =
      (Some (exhausted_error (Some e)), world_after df w n, retried_trace 1 (outcomes df w n))"
    using n3 e by (subst downloadWithRetry_after_retries [OF assms le], subst retry_loop.simps)
      (simp add: maxRetries_def)
  have f3: "fmt_d (int maxRetries) = ''3''"
    by (simp add: fmt_d_def maxRetries_def string_of_nat_digit digit_char_def)
  show "\<exists>e. last (outcomes df w n) = Some e
          \<and> fst (downloadWithRetry df w) = Some (WrapError ''failed after 3 attempts, last error: '' e)"
    using e r f3 by (simp add: exhausted_error_def)
  have "calls_of (retried_trace 1 (outcomes df w n)) = [1..<1 + n]"
    using calls_of_retried [OF nn, of 1] by (simp add: outcomes_length)
  also have "\<dots> = [1, 2, 3]" using n3 by (simp add: upt_rec)
  finally show "calls_of (snd (snd (downloadWithRetry df w))) = [1, 2, 3]"
    by (simp add: r)
qed

lemma outcomes_three_unavailable: "outcomes (downloadFile_call (failing_then 3 unavailable (env_ok 1000)) state0) world0 3
   = [Some (WrapError ''failed to get download URL: '' unavailable),
      Some (WrapError ''failed to get download URL: '' unavailable),
      Some (WrapError ''failed to get download URL: '' unavailable)]"
  by (simp add: numeral_3_eq_3 downloadFile_call_def downloadFile_def failing_then_def
      env_url_fails_def env_ok_def world0_def)

lemma unavailable_is_transient: "isTransientError (Some (WrapError ''failed to get download URL: '' unavailable))"
  by (simp add: isTransientError_def unavailable_def)

text \<open>
  C1, as stated, fails for a sequence of three transient errors: \<open>GetDownloadURL\<close>
  fails three times with a 503 and would succeed the fourth time, yet
  \<open>downloadWithRetry\<close> returns the exhausted-retry error and never makes a fourth call.
\<close>

theorem retry_three_then_success_counterexample:
  "list_all isTransientError
     (outcomes (downloadFile_call (failing_then 3 unavailable (env_ok 1000)) state0) world0 3)
   \<and> fst (downloadFile_call (failing_then 3 unavailable (env_ok 1000)) state0
        (world_after (downloadFile_call (failing_then 3 unavailable (env_ok 1000)) state0) world0 3)) = None
   \<and> fst (downloadWithRetry (downloadFile_call (failing_then 3 unavailable (env_ok 1000)) state0) world0)
       = Some (WrapError ''failed after 3 attempts, last error: ''
                 (WrapError ''failed to get download URL: '' unavailable))"
  apply (intro conjI)
    apply (simp add: outcomes_three_unavailable unavailable_is_transient)
   apply (simp add: numeral_3_eq_3 downloadFile_call_def downloadFile_def failing_then_def
      env_url_fails_def env_ok_def world0_def ctx0_def state0_def)
  apply (simp add: downloadWithRetry_def retry_loop.simps maxRetries_def downloadFile_call_def
      downloadFile_def failing_then_def env_url_fails_def env_ok_def world0_def unavailable_is_transient
      exhausted_error_def fmt_d_def string_of_nat_digit digit_char_def isTransientError_def unavailable_def)
  done


text \<open>Two transient failures, then a success: the download succeeds. Three: it fails.\<close>

theorem downloadWithRetry_retry_exhaustion_witness:
  "list_all isTransientError
     (outcomes (downloadFile_call (failing_then 2 unavailable (env_ok 1000)) state0) world0 2)
   \<and> fst (downloadFile_call (failing_then 2 unavailable (env_ok 1000)) state0
        (world_after (downloadFile_call (failing_then 2 unavailable (env_ok 1000)) state0) world0 2)) = None
   \<and> fst (downloadWithRetry (downloadFile_call (failing_then 2 unavailable (env_ok 1000)) state0) world0) = None
   \<and> fst (downloadWithRetry (downloadFile_call (failing_then 3 unavailable (env_ok 1000)) state0) world0)
       = Some (WrapError ''failed after 3 attempts, last error: ''
                 (WrapError ''failed to get download URL: '' unavailable))"
proof -
  let ?df = "downloadFile_call (failing_then 2 unavailable (env_ok 1000)) state0"
  have o: "outcomes ?df world0 2 =
      [Some (WrapError ''failed to get download URL: '' unavailable),
       Some (WrapError ''failed to get download URL: '' unavailable)]"
    by (simp add: numeral_2_eq_2 downloadFile_call_def downloadFile_def failing_then_def
        env_url_fails_def env_ok_def world0_def)
  have h: "\<forall>e \<in> set (outcomes ?df world0 2). isTransientError e"
    by (simp add: o unavailable_is_transient)
  have ok: "fst (?df (world_after ?df world0 2)) = None"
    by (simp add: numeral_2_eq_2 downloadFile_call_def downloadFile_def failing_then_def
        env_url_fails_def env_ok_def world0_def ctx0_def state0_def)
  from downloadWithRetry_retry_exhaustion [OF h] ok
  have r: "fst (downloadWithRetry ?df world0) = None" by simp
  let ?df3 = "downloadFile_call (failing_then 3 unavailable (env_ok 1000)) state0"
  have h3: "\<forall>e \<in> set (outcomes ?df3 world0 3). isTransientError e"
    by (simp add: outcomes_three_unavailable unavailable_is_transient)
  from downloadWithRetry_retry_exhaustion [OF h3]
  have r3: "fst (downloadWithRetry ?df3 world0) =
      Some (WrapError ''failed after 3 attempts, last error: ''
              (WrapError ''failed to get download URL: '' unavailable))"
    by (simp add: outcomes_three_unavailable)
  from o ok r r3 show ?thesis by (simp add: unavailable_is_transient)
qed

lemma downloadWithRetry_cancelled:
  assumes "\<forall>e \<in> set (outcomes df w n). isTransientError e" and "n < maxRetries"
    and "fst (df (world_after df w n)) = Some err" and "isCancelled err"
  shows "downloadWithRetry df w =
           (Some err, snd (df (world_after df w n)),
            retried_trace 1 (outcomes df w n) @ [CallDownloadFile (Suc n)])
         \<and> calls_of (snd (snd (downloadWithRetry df w))) = [1..<n + 2]
         \<and> sleeps_of (snd (snd (downloadWithRetry df w))) = [1..<n + 1]"
proof -
  have le: "n \<le> maxRetries" using assms(2) by simp
  have nn: "\<forall>e \<in> set (outcomes df w n). e \<noteq> None"
    using assms(1) transient_not_None by blast
  have r: "downloadWithRetry df w =
      (Some err, snd (df (world_after df w n)),
       retried_trace 1 (outcomes df w n) @ [CallDownloadFile (Suc n)])"
    using assms(2,3,4)
    by (subst downloadWithRetry_after_retries [OF assms(1) le], subst retry_loop.simps) simp
  have c: "calls_of (snd (snd (downloadWithRetry df w))) = [1..<n + 2]"
    by (simp add: r calls_of_append calls_of_retried [OF nn] outcomes_length)
  have s: "sleeps_of (snd (snd (downloadWithRetry df w))) = [1..<n + 1]"
    by (simp add: r sleeps_of_append sleeps_of_retried [OF nn] outcomes_length)
  from r c s show ?thesis by blast
qed

text \<open>
  C4. If the loop reaches attempt \<open>n + 1\<close> (the \<open>n < 3\<close> attempts before it failed with
  transient errors) and \<open>downloadFile\<close> returns a cancellation error there, then
  \<open>downloadWithRetry\<close> returns that very error, unwrapped; the call of attempt
  \<open>n + 1\<close> is the last event of its trace, so no further attempt is made and nothing
  sleeps after it (the only sleeps are those of the \<open>n\<close> earlier retries); and the worker
  removes the file id from the active files and reports nothing to the coordinator.
\<close>

theorem cancellation_short_circuit:
  assumes "\<forall>e \<in> set (outcomes (dfs (state_of_job job)) w n). isTransientError e"
    and "n < maxRetries"
    and "fst (dfs (state_of_job job) (world_after (dfs (state_of_job job)) w n)) = Some err"
    and "isCancelled err"
  shows "downloadWithRetry (dfs (state_of_job job)) w =
           (Some err, snd (dfs (state_of_job job) (world_after (dfs (state_of_job job)) w n)),
            retried_trace 1 (outcomes (dfs (state_of_job job)) w n) @ [CallDownloadFile (Suc n)])
         \<and> calls_of (snd (snd (downloadWithRetry (dfs (state_of_job job)) w))) = [1..<n + 2]
         \<and> sleeps_of (snd (snd (downloadWithRetry (dfs (state_of_job job)) w))) = [1..<n + 1]
         \<and> handleJob dfs job (m, w) =
             (m\<lparr>activeFiles := activeFiles m - {FileID job}\<rparr>,
              snd (dfs (state_of_job job) (world_after (dfs (state_of_job job)) w n)))"
proof -
  note r = downloadWithRetry_cancelled [OF assms]
  have "handleJob dfs job (m, w) =
      (m\<lparr>activeFiles := activeFiles m - {FileID job}\<rparr>,
       snd (dfs (state_of_job job) (world_after (dfs (state_of_job job)) w n)))"
    using assms(4) by (simp add: handleJob_def conjunct1 [OF r])
  with r show ?thesis by blast
qed

text \<open>
  C5. If the loop reaches attempt \<open>k = n + 1 \<le> 3\<close> and \<open>downloadFile\<close> returns there
  an error that is neither a cancellation nor transient, then \<open>downloadWithRetry\<close>
  returns "permanent error on attempt k: ..." wrapping that error; the call of attempt
  \<open>k\<close> is the last event of its trace: no further attempt, and no sleep after it.
\<close>

theorem permanent_error_abort:
  assumes "\<forall>e \<in> set (outcomes df w n). isTransientError e" and "n < maxRetries"
    and "fst (df (world_after df w n)) = Some err"
    and "\<not> isCancelled err" and "\<not> isTransientError (Some err)"
  shows "downloadWithRetry df w =
           (Some (WrapError (''permanent error on attempt '' @ fmt_d (int (Suc n)) @ '': '') err),
            snd (df (world_after df w n)),
            retried_trace 1 (outcomes df w n) @ [CallDownloadFile (Suc n)])
         \<and> calls_of (snd (snd (downloadWithRetry df w))) = [1..<n + 2]
         \<and> sleeps_of (snd (snd (downloadWithRetry df w))) = [1..<n + 1]"
proof -
  have le: "n \<le> maxRetries" using assms(2) by simp
  have nn: "\<forall>e \<in> set (outcomes df w n). e \<noteq> None"
    using assms(1) transient_not_None by blast
  have r: "downloadWithRetry df w =
      (Some (permanent_error (Suc n) err), snd (df (world_after df w n)),
       retried_trace 1 (outcomes df w n) @ [CallDownloadFile (Suc n)])"
    using assms(2,3,4,5)
    by (subst downloadWithRetry_after_retries [OF assms(1) le], subst retry_loop.simps) simp
  have c: "calls_of (snd (snd (downloadWithRetry df w))) = [1..<n + 2]"
    by (simp add: r calls_of_append calls_of_retried [OF nn] outcomes_length)
  have s: "sleeps_of (snd (snd (downloadWithRetry df w))) = [1..<n + 1]"
    by (simp add: r sleeps_of_append sleeps_of_retried [OF nn] outcomes_length)
  from r c s show ?thesis by (simp add: permanent_error_def)
qed

text \<open>
  C10. When every step of \<open>downloadFile\<close> succeeds and the coordinator does not know
  the transfer, \<open>downloadFile\<close> returns \<open>nil\<close> and leaves the whole registry as it
  was, so that no \<open>DownloadedSize\<close> changes; compared with the run in which the transfer
  is known, the result and the start and completion log lines are the same, and only the
  update of the context and its debug line are missing.
\<close>

theorem downloadFile_unknown_transfer:
  assumes "attempt_succeeds env sz"
  shows "(reg (stTransferID st) = None \<longrightarrow>
            downloadFile st env reg =
              (None, reg, [LogStarting (stName st), LogCompleted (stName st) sz]))
       \<and> (reg (stTransferID st) = Some ctx \<longrightarrow>
            downloadFile st env reg =
              (None, reg(stTransferID st \<mapsto> ctx\<lparr>DownloadedSize := DownloadedSize ctx + sz\<rparr>),
               [LogStarting (stName st),
                LogUpdatedTransfer (stName st) (stTransferID st) sz (DownloadedSize ctx + sz) (TotalSize ctx),
                LogCompleted (stName st) sz]))"
  using assms by (simp add: attempt_succeeds_def downloadFile_def)


subsection \<open>Runs of the retry loop on the model of \<open>downloadFile\<close>\<close>

lemma outcomes_one_unavailable:
  "outcomes (downloadFile_call (failing_then 1 unavailable env) state0) world0 1
     = [Some (WrapError ''failed to get download URL: '' unavailable)]"
  by (simp add: downloadFile_call_def downloadFile_def failing_then_def
        env_url_fails_def env_ok_def world0_def)

lemma world_after_one_unavailable:
  "world_after (downloadFile_call (failing_then 1 unavailable env) state0) world0 1
     = \<lparr>calls = 1, coord = [7 \<mapsto> ctx0], logged = []\<rparr>"
  by (simp add: downloadFile_call_def downloadFile_def failing_then_def
        env_url_fails_def env_ok_def world0_def)

text \<open>A 503 on the first attempt, a shutdown during the second.\<close>

theorem cancellation_short_circuit_witness:
  "fst (downloadWithRetry (downloadFile_call (failing_then 1 unavailable env_cancelled) state0) world0)
     = Some (DownloadError ''DownloadCancelled'' ''download stopped: a.bin'')
   \<and> calls_of (snd (snd (downloadWithRetry
        (downloadFile_call (failing_then 1 unavailable env_cancelled) state0) world0))) = [1, 2]
   \<and> sleeps_of (snd (snd (downloadWithRetry
        (downloadFile_call (failing_then 1 unavailable env_cancelled) state0) world0))) = [1]
   \<and> fst (handleJob (downloadFile_call (failing_then 1 unavailable env_cancelled)) job0
        (manager0, world0)) = \<lparr>activeFiles = {12}, reported = []\<rparr>"
proof -
  let ?df = "downloadFile_call (failing_then 1 unavailable env_cancelled) state0"
  let ?err = "DownloadError ''DownloadCancelled'' ''download stopped: a.bin''"
  have h1: "\<forall>e \<in> set (outcomes ?df world0 1). isTransientError e"
    by (simp only: outcomes_one_unavailable) (simp add: unavailable_is_transient)
  have h2: "(1::nat) < maxRetries" by (simp add: maxRetries_def)
  have h3: "fst (?df (world_after ?df world0 1)) = Some ?err"
    by (simp only: world_after_one_unavailable)
      (simp add: downloadFile_call_def downloadFile_def failing_then_def env_cancelled_def
        env_ok_def state0_def NewDownloadCancelledError_def)
  have h4: "isCancelled ?err" by simp
  have u: "[1..<3] = [1::nat, 2]" "[1..<2] = [1::nat]" by (simp_all add: upt_rec)
  have sj: "state_of_job job0 = state0" by (simp add: state_of_job_def job0_def state0_def)
  note t = cancellation_short_circuit [of "downloadFile_call (failing_then 1 unavailable env_cancelled)"
      job0 world0 1 ?err manager0, unfolded sj, OF h1 h2 h3 h4]
  have a: "fst (downloadWithRetry ?df world0) = Some ?err"
    using conjunct1 [OF t] by simp
  have c: "calls_of (snd (snd (downloadWithRetry ?df world0))) = [1..<1 + 2]"
    using t by blast
  have s: "sleeps_of (snd (snd (downloadWithRetry ?df world0))) = [1..<1 + 1]"
    using t by blast
  have "fst (handleJob (downloadFile_call (failing_then 1 unavailable env_cancelled)) job0 (manager0, world0))
      = manager0\<lparr>activeFiles := activeFiles manager0 - {FileID job0}\<rparr>"
    using conjunct2 [OF conjunct2 [OF conjunct2 [OF t]]] by simp
  then have m: "fst (handleJob (downloadFile_call (failing_then 1 unavailable env_cancelled)) job0 (manager0, world0)) = \<lparr>activeFiles = {12}, reported = []\<rparr>"
    by (simp add: manager0_def job0_def)
  from a c s m show ?thesis by (simp add: u)
qed

text \<open>A 503 on the first attempt, a 404 on the second.\<close>

theorem permanent_error_abort_witness:
  "(case fst (downloadWithRetry
        (downloadFile_call (failing_then 1 unavailable (env_url_fails not_found)) state0) world0) of
      None \<Rightarrow> [] | Some e \<Rightarrow> Error e)
     = ''permanent error on attempt 2: failed to get download URL: unexpected status 404''
   \<and> calls_of (snd (snd (downloadWithRetry
        (downloadFile_call (failing_then 1 unavailable (env_url_fails not_found)) state0) world0))) = [1, 2]
   \<and> sleeps_of (snd (snd (downloadWithRetry
        (downloadFile_call (failing_then 1 unavailable (env_url_fails not_found)) state0) world0))) = [1]"
proof -
  let ?df = "downloadFile_call (failing_then 1 unavailable (env_url_fails not_found)) state0"
  let ?err = "WrapError ''failed to get download URL: '' not_found"
  have h1: "\<forall>e \<in> set (outcomes ?df world0 1). isTransientError e"
    by (simp only: outcomes_one_unavailable) (simp add: unavailable_is_transient)
  have h2: "(1::nat) < maxRetries" by (simp add: maxRetries_def)
  have h3: "fst (?df (world_after ?df world0 1)) = Some ?err"
    by (simp only: world_after_one_unavailable)
      (simp add: downloadFile_call_def downloadFile_def failing_then_def env_url_fails_def
        env_ok_def)
  have h4: "\<not> isCancelled ?err" by simp
  have h5: "\<not> isTransientError (Some ?err)"
    by (simp add: isTransientError_def not_found_def)
  have u: "[1..<3] = [1::nat, 2]" "[1..<2] = [1::nat]" by (simp_all add: upt_rec)
  have f: "fmt_d 2 = ''2''" by (simp add: fmt_d_def string_of_nat_digit digit_char_def)
  note t = permanent_error_abort [OF h1 h2 h3 h4 h5]
  have "fst (downloadWithRetry ?df world0)
      = Some (WrapError (''permanent error on attempt '' @ fmt_d (int (Suc 1)) @ '': '') ?err)"
    using conjunct1 [OF t] by simp
  then have a: "(case fst (downloadWithRetry ?df world0) of None \<Rightarrow> [] | Some e \<Rightarrow> Error e)
      = ''permanent error on attempt 2: failed to get download URL: unexpected status 404''"
    by (simp add: f not_found_def)
  have c: "calls_of (snd (snd (downloadWithRetry ?df world0))) = [1..<1 + 2]"
    using t by blast
  have s: "sleeps_of (snd (snd (downloadWithRetry ?df world0))) = [1..<1 + 1]"
    using t by blast
  from a c s show ?thesis by (simp add: u)
qed

text \<open>The same successful download against an empty registry and against one that knows transfer 7.\<close>

theorem downloadFile_unknown_transfer_witness:
  "attempt_succeeds (env_ok 1000) 1000
   \<and> downloadFile state0 (env_ok 1000) Map.empty
       = (None, Map.empty, [LogStarting ''a.bin'', LogCompleted ''a.bin'' 1000])
   \<and> downloadFile state0 (env_ok 1000) [7 \<mapsto> ctx0]
       = (None, [7 \<mapsto> ctx0\<lparr>DownloadedSize := 1000\<rparr>],
          [LogStarting ''a.bin'', LogUpdatedTransfer ''a.bin'' 7 1000 1000 4000,
           LogCompleted ''a.bin'' 1000])"
proof -
  have h: "attempt_succeeds (env_ok 1000) 1000"
    by (simp add: attempt_succeeds_def env_ok_def)
  from downloadFile_unknown_transfer [OF h, of Map.empty state0]
    downloadFile_unknown_transfer [OF h, of "[7 \<mapsto> ctx0]" state0 ctx0]
  show ?thesis using h by (simp add: state0_def ctx0_def)
qed

subsection \<open>Aggregation of completed sizes\<close>

text \<open>
  A reporter that is not interrupted adds its size, as the sequential \<open>downloadFile\<close>
  does; and successive downloads of one worker add up exactly (in 64-bit arithmetic).
\<close>

lemma reporter_alone:
  "run_schedule [0, 0] (d, [new_reporter sz]) = (d + sz, [\<lparr>pc = Stored, fileSize = sz\<rparr>])"
  by (simp add: new_reporter_def)

lemma download_all_sum:
  "reg (stTransferID st) = Some ctx \<Longrightarrow>
   download_all st szs reg =
     reg(stTransferID st \<mapsto> ctx\<lparr>DownloadedSize := DownloadedSize ctx + sum_list szs\<rparr>)"
proof (induction szs arbitrary: reg ctx)
  case Nil
  then show ?case by (simp add: map_upd_triv)
next
  case (Cons sz szs)
  have ok: "attempt_succeeds (env_ok sz) sz" by (simp add: attempt_succeeds_def env_ok_def)
  have step: "fst (snd (downloadFile st (env_ok sz) reg)) =
      reg(stTransferID st \<mapsto> ctx\<lparr>DownloadedSize := DownloadedSize ctx + sz\<rparr>)"
    using Cons.prems by (simp add: downloadFile_def env_ok_def)
  let ?ctx = "ctx\<lparr>DownloadedSize := DownloadedSize ctx + sz\<rparr>"
  let ?reg = "reg(stTransferID st \<mapsto> ?ctx)"
  have k: "?reg (stTransferID st) = Some ?ctx" by simp
  from Cons.IH [of ?reg ?ctx] k
  have "download_all st szs ?reg =
      ?reg(stTransferID st \<mapsto> ?ctx\<lparr>DownloadedSize := DownloadedSize ?ctx + sum_list szs\<rparr>)" by blast
  also have "\<dots> = reg(stTransferID st \<mapsto> ctx\<lparr>DownloadedSize := DownloadedSize ctx + sum_list (sz # szs)\<rparr>)"
    by (simp add: add.assoc)
  finally show ?case by (simp only: download_all.simps step)
qed

text \<open>
  C2. The claim asks that \<open>DownloadedSize\<close> be the exact sum of the completed sizes
  also when several workers report at once. Two workers finish files of 5 and 7 bytes
  of one transfer whose \<open>DownloadedSize\<close> is 0: when both load the field before either
  stores, both reports complete and the field is 7, the 5 bytes being lost; run one
  after the other, the same two reports give 12.
\<close>

theorem DownloadedSize_lost_update:
  "run_schedule [0, 1, 0, 1] (0, [new_reporter 5, new_reporter 7])
     = (7, [\<lparr>pc = Stored, fileSize = 5\<rparr>, \<lparr>pc = Stored, fileSize = 7\<rparr>])
   \<and> run_schedule [0, 0, 1, 1] (0, [new_reporter 5, new_reporter 7])
     = (12, [\<lparr>pc = Stored, fileSize = 5\<rparr>, \<lparr>pc = Stored, fileSize = 7\<rparr>])"
  by (simp add: new_reporter_def)

subsection \<open>Dashboard\<close>

lemma visitTransfer_context: "fst (visitTransfer now ctx downloads) = ctx"
  by (simp add: visitTransfer_def Let_def)

lemma visitTransfer_downloads:
  "snd (visitTransfer now ctx downloads) =
     (if State ctx = TransferLifecycleDownloading \<and> 0 < sint (TotalSize ctx)
      then downloads @ [snapshot_view now (Name ctx) (DownloadedSize ctx) (TotalSize ctx) (StartTime ctx)]
      else downloads)"
  by (simp add: visitTransfer_def snapshot_view_def Let_def)

lemma GetAllTransfers_visitTransfer:
  "GetAllTransfers ctxs (visitTransfer now) acc =
     (ctxs,
      acc @ map (\<lambda>c. snapshot_view now (Name c) (DownloadedSize c) (TotalSize c) (StartTime c))
              (filter (\<lambda>c. State c = TransferLifecycleDownloading \<and> 0 < sint (TotalSize c)) ctxs))"
proof (induction ctxs arbitrary: acc)
  case Nil
  show ?case by simp
next
  case (Cons c ctxs)
  show ?case by (simp add: Cons.IH visitTransfer_context visitTransfer_downloads Let_def)
qed

text \<open>
  C8. The handler leaves every context as it found it, and its list has one entry for
  each visited transfer whose \<open>State\<close> is \<open>Downloading\<close> and whose \<open>TotalSize\<close> is
  greater than zero, and for no other; the entry is the view computed from \<open>Name\<close>,
  \<open>DownloadedSize\<close>, \<open>TotalSize\<close> and \<open>StartTime\<close> alone (and the clock).
\<close>

theorem handleDashboardAPI_snapshot:
  "handleDashboardAPI now ctxs =
     (ctxs,
      map (\<lambda>c. snapshot_view now (Name c) (DownloadedSize c) (TotalSize c) (StartTime c))
        (filter (\<lambda>c. State c = TransferLifecycleDownloading \<and> 0 < sint (TotalSize c)) ctxs))"
  by (simp add: handleDashboardAPI_def GetAllTransfers_visitTransfer)

text \<open>Three transfers, of which one is downloading with a known total size.\<close>

theorem handleDashboardAPI_snapshot_witness:
  "handleDashboardAPI 3000000000
     [ctx_a, ctx_a\<lparr>State := TransferLifecyclePending\<rparr>, ctx_a\<lparr>TotalSize := 0\<rparr>]
   = ([ctx_a, ctx_a\<lparr>State := TransferLifecyclePending\<rparr>, ctx_a\<lparr>TotalSize := 0\<rparr>],
      [\<lparr>diName = ''a'', ProgressPercent = 25, DownloadedMB = 1, TotalMB = 4, SpeedMBps = 1 / 2,
        ETA = ''6s''\<rparr>])"
  using handleDashboardAPI_snapshot [of 3000000000
      "[ctx_a, ctx_a\<lparr>State := TransferLifecyclePending\<rparr>, ctx_a\<lparr>TotalSize := 0\<rparr>]"]
  by (simp add: ctx_a_def snapshot_view_def Let_def formatDuration_def trunc_int_def go_div_def
      go_mod_def fmt_d_def string_of_nat_digit digit_char_def)

subsection \<open>Progress monitor\<close>

lemma monitor_loop_snoc:
  "monitor_loop interval name ms (scs @ [sc]) =
     (fst (monitor_step interval name (fst (monitor_loop interval name ms scs)) sc),
      snd (monitor_loop interval name ms scs)
        @ [snd (monitor_step interval name (fst (monitor_loop interval name ms scs)) sc)])"
  by (induction scs arbitrary: ms) (simp_all add: Let_def)

lemma monitor_loop_reference:
  "(lastProgress (fst (monitor_loop interval name ms scs)),
    lastLogTime (fst (monitor_loop interval name ms scs)))
   = last_logged (lastProgress ms, lastLogTime ms) (zip scs (snd (monitor_loop interval name ms scs)))"
proof (induction scs arbitrary: ms)
  case Nil
  show ?case by simp
next
  case (Cons sc scs)
  let ?r = "monitor_step interval name ms sc"
  have one: "last_logged (lastProgress ms, lastLogTime ms) ((sc, snd ?r) # h)
      = last_logged (lastProgress (fst ?r), lastLogTime (fst ?r)) h" for h
    by (simp add: monitor_step_def Let_def split: option.splits)
  show ?case by (simp add: Let_def one Cons.IH)
qed

lemma monitor_step_logs:
  "is_progress_log (snd (monitor_step interval name ms sc)) \<longleftrightarrow>
     (\<exists>p. parseProgressLine (line sc) = Some p
        \<and> interval \<le> t_since sc - lastLogTime ms \<and> progress p \<noteq> lastProgress ms)"
  by (simp add: monitor_step_def Let_def split: option.splits)

text \<open>
  C7. In every run of the monitor, a round logs progress exactly when its line parses,
  the interval has elapsed since the last logged progress and the parsed percentage
  differs from the percentage of that log; before the first log the reference is the
  start of the monitor and the percentage 0. Every round is the last round of a run, so
  the statement is about the last round after any history \<open>scs\<close>.
\<close>

theorem progress_log_rate_limit:
  "is_progress_log (last (snd (monitorAria2cProgress interval name start (scs @ [sc])))) \<longleftrightarrow>
     (\<exists>p. parseProgressLine (line sc) = Some p
        \<and> interval \<le> t_since sc
             - snd (last_logged (0, start) (zip scs (snd (monitorAria2cProgress interval name start scs))))
        \<and> progress p \<noteq>
             fst (last_logged (0, start) (zip scs (snd (monitorAria2cProgress interval name start scs)))))"
proof -
  let ?run = "monitor_loop interval name (monitor_init start) scs"
  have ref: "last_logged (0, start) (zip scs (snd ?run))
      = (lastProgress (fst ?run), lastLogTime (fst ?run))"
    using monitor_loop_reference [of interval name "monitor_init start" scs]
    by (simp add: monitor_init_def)
  show ?thesis
    by (simp add: monitorAria2cProgress_def monitor_loop_snoc ref monitor_step_logs)
qed

text \<open>
  C6. The line \<open>[#1 SIZE:1.2GiB/10.5GiB(11%) CN:16 DL:45.2MiB ETA:3m12s]\<close> parses to
  percent 11, speed 45.2 MB/s and eta "3m12s"; for every line that matches, a speed
  \<open>v\<close> in KiB becomes \<open>v / 1024\<close>, in GiB \<open>v * 1024\<close>, in MiB \<open>v\<close>; and
  \<open>DL:900KiB\<close> gives \<open>900 / 1024\<close>, which is 0.879 to three decimals.
\<close>

theorem progress_parsing:
  "parseProgressLine ''[#1 SIZE:1.2GiB/10.5GiB(11%) CN:16 DL:45.2MiB ETA:3m12s]''
     = Some \<lparr>progress = 11, speed = 452 / 10, speedUnit = ''MiB'', eta = ''3m12s'', speedMBps = 452 / 10\<rparr>
   \<and> (\<forall>l p. parseProgressLine l = Some p \<longrightarrow>
         (speedUnit p = ''KiB'' \<longrightarrow> speedMBps p = speed p / 1024)
         \<and> (speedUnit p = ''GiB'' \<longrightarrow> speedMBps p = speed p * 1024)
         \<and> (speedUnit p = ''MiB'' \<longrightarrow> speedMBps p = speed p))
   \<and> (\<exists>p. parseProgressLine ''[#1 SIZE:1.2GiB/10.5GiB(11%) CN:16 DL:900KiB ETA:3m12s]'' = Some p
         \<and> speed p = 900 \<and> speedMBps p = 900 / 1024 \<and> \<bar>speedMBps p - 879 / 1000\<bar> < 1 / 2000)"
proof (intro conjI allI impI)
  show "parseProgressLine ''[#1 SIZE:1.2GiB/10.5GiB(11%) CN:16 DL:45.2MiB ETA:3m12s]''
     = Some \<lparr>progress = 11, speed = 452 / 10, speedUnit = ''MiB'', eta = ''3m12s'', speedMBps = 452 / 10\<rparr>"
    by (simp add: parseProgressLine_def progressRegex_def match_here_def is_digit_def upt_rec
        ParseFloat_def digit_value_def)
next
  fix l p assume "parseProgressLine l = Some p" "speedUnit p = ''KiB''"
  then show "speedMBps p = speed p / 1024"
    by (auto simp: parseProgressLine_def split: option.splits if_splits)
next
  fix l p assume "parseProgressLine l = Some p" "speedUnit p = ''GiB''"
  then show "speedMBps p = speed p * 1024"
    by (auto simp: parseProgressLine_def split: option.splits if_splits)
next
  fix l p assume "parseProgressLine l = Some p" "speedUnit p = ''MiB''"
  then show "speedMBps p = speed p"
    by (auto simp: parseProgressLine_def split: option.splits if_splits)
next
  have "parseProgressLine ''[#1 SIZE:1.2GiB/10.5GiB(11%) CN:16 DL:900KiB ETA:3m12s]''
     = Some \<lparr>progress = 11, speed = 900, speedUnit = ''KiB'', eta = ''3m12s'', speedMBps = 900 / 1024\<rparr>"
    by (simp add: parseProgressLine_def progressRegex_def match_here_def is_digit_def upt_rec
        ParseFloat_def digit_value_def)
  then show "\<exists>p. parseProgressLine ''[#1 SIZE:1.2GiB/10.5GiB(11%) CN:16 DL:900KiB ETA:3m12s]'' = Some p
         \<and> speed p = 900 \<and> speedMBps p = 900 / 1024 \<and> \<bar>speedMBps p - 879 / 1000\<bar> < 1 / 2000"
    by simp
qed


text \<open>Two sample lines and runs of the monitor on them, with an interval of five seconds.\<close>

lemma parse_sample_11:
  "parseProgressLine (sample_line ''11'' ''45.2MiB'')
     = Some \<lparr>progress = 11, speed = 452 / 10, speedUnit = ''MiB'', eta = ''3m12s'', speedMBps = 452 / 10\<rparr>"
  by (simp add: sample_line_def parseProgressLine_def progressRegex_def match_here_def is_digit_def
      upt_rec ParseFloat_def digit_value_def)

lemma parse_sample_12:
  "parseProgressLine (sample_line ''12'' ''900KiB'')
     = Some \<lparr>progress = 12, speed = 900, speedUnit = ''KiB'', eta = ''3m12s'', speedMBps = 900 / 1024\<rparr>"
  by (simp add: sample_line_def parseProgressLine_def progressRegex_def match_here_def is_digit_def
      upt_rec ParseFloat_def digit_value_def)

theorem progress_parsing_witness:
  "parseProgressLine (sample_line ''12'' ''900KiB'')
     = Some \<lparr>progress = 12, speed = 900, speedUnit = ''KiB'', eta = ''3m12s'', speedMBps = 900 / 1024\<rparr>
   \<and> speedMBps \<lparr>progress = 12, speed = 900, speedUnit = ''KiB'', eta = ''3m12s'', speedMBps = 900 / 1024\<rparr>
       = speed \<lparr>progress = 12, speed = 900, speedUnit = ''KiB'', eta = ''3m12s'', speedMBps = 900 / 1024\<rparr> / 1024"
proof -
  let ?p = "\<lparr>progress = 12, speed = 900, speedUnit = ''KiB'', eta = ''3m12s'', speedMBps = 900 / 1024\<rparr>"
  from progress_parsing
  have "parseProgressLine (sample_line ''12'' ''900KiB'') = Some ?p \<longrightarrow>
      (speedUnit ?p = ''KiB'' \<longrightarrow> speedMBps ?p = speed ?p / 1024)"
    by blast
  with parse_sample_12 show ?thesis by simp
qed

theorem progress_log_rate_limit_witness:
  "is_progress_log (last (snd (monitorAria2cProgress 5000000000 ''a.bin'' 0
      ([scanned_at (sample_line ''11'' ''45.2MiB'') 6] @ [scanned_at (sample_line ''12'' ''900KiB'') 12]))))
   \<and> \<not> is_progress_log (last (snd (monitorAria2cProgress 5000000000 ''a.bin'' 0
      ([scanned_at (sample_line ''11'' ''45.2MiB'') 6] @ [scanned_at (sample_line ''12'' ''900KiB'') 10]))))
   \<and> \<not> is_progress_log (last (snd (monitorAria2cProgress 5000000000 ''a.bin'' 0
      ([scanned_at (sample_line ''11'' ''45.2MiB'') 6] @ [scanned_at (sample_line ''11'' ''45.2MiB'') 12]))))"
proof -
  have run1: "snd (monitorAria2cProgress 5000000000 ''a.bin'' 0 [scanned_at (sample_line ''11'' ''45.2MiB'') 6])
      = [Some (LogProgress ''a.bin'' 11 (452 / 10) ''3m12s'')]"
    by (simp add: monitorAria2cProgress_def monitor_init_def monitor_step_def scanned_at_def
        parse_sample_11 Let_def)
  have ref: "last_logged (0, 0) (zip [scanned_at (sample_line ''11'' ''45.2MiB'') 6]
        (snd (monitorAria2cProgress 5000000000 ''a.bin'' 0 [scanned_at (sample_line ''11'' ''45.2MiB'') 6])))
      = (11, 6000000000)"
    by (simp add: run1) (simp add: scanned_at_def)
  show ?thesis
    using progress_log_rate_limit [of 5000000000 "''a.bin''" 0 "[scanned_at (sample_line ''11'' ''45.2MiB'') 6]"
        "scanned_at (sample_line ''12'' ''900KiB'') 12"]
      progress_log_rate_limit [of 5000000000 "''a.bin''" 0 "[scanned_at (sample_line ''11'' ''45.2MiB'') 6]"
        "scanned_at (sample_line ''12'' ''900KiB'') 10"]
      progress_log_rate_limit [of 5000000000 "''a.bin''" 0 "[scanned_at (sample_line ''11'' ''45.2MiB'') 6]"
        "scanned_at (sample_line ''11'' ''45.2MiB'') 12"]
    by (simp add: ref) (simp add: scanned_at_def parse_sample_11 parse_sample_12)
qed

end
